theory Spec2Isabelle
  imports Main "HOL-Library.Sublist" "HOL-Library.Multiset" "HOL-Library.Log_Nat"
begin

section \<open>Python values\<close>

subsection \<open>Strings\<close>

text \<open>
  A Python \<open>str\<close> is a sequence of Unicode code points, and \<open>len\<close>, slicing and
  \<open>in\<close> count code points. A string is therefore a list of code points; \<open>ustr\<close>
  turns a 7-bit literal into one.
\<close>

type_synonym pystr = "nat list"

definition ustr :: "string \<Rightarrow> pystr" where
  "ustr s = map of_char s"

definition NL :: pystr where
  "NL = [10]"

text \<open>
  \<open>str.lower()\<close>, one code point at a time. Below 256 the table is Python's: A-Z and the
  Latin-1 capitals U+00C0..U+00DE (without the multiplication sign U+00D7) move up by 32.
  Above, the two code points whose lower-case form holds a 7-bit letter are mapped as
  Python maps them (U+0130 to \<open>i\<close> followed by U+0307, the Kelvin sign U+212A to \<open>k\<close>).
  Every other code point from 256 on is kept: Python sends it to code points from 128 on, so
  neither emptiness, nor the number of \<open>/\<close>, nor the occurrence of a 7-bit pattern in the
  lower-cased string depends on it, and these are the only uses of a lower-cased string in
  the program.
\<close>

definition lower_cp :: "nat \<Rightarrow> pystr" where
  "lower_cp c =
     (if (65 \<le> c \<and> c \<le> 90) \<or> (192 \<le> c \<and> c \<le> 222 \<and> c \<noteq> 215) then [c + 32]
      else if c = 304 then [105, 775]
      else if c = 8490 then [107]
      else [c])"

definition lower :: "pystr \<Rightarrow> pystr" where
  "lower s = concat (map lower_cp s)"

text \<open>\<open>str.isspace\<close> of one code point and \<open>str.strip()\<close> without argument.\<close>

definition is_space :: "nat \<Rightarrow> bool" where
  "is_space c =
     ((9 \<le> c \<and> c \<le> 13) \<or> (28 \<le> c \<and> c \<le> 32) \<or> c = 133 \<or> c = 160 \<or> c = 5760
      \<or> (8192 \<le> c \<and> c \<le> 8202) \<or> c = 8232 \<or> c = 8233 \<or> c = 8239 \<or> c = 8287
      \<or> c = 12288)"

definition strip :: "pystr \<Rightarrow> pystr" where
  "strip s = rev (dropWhile is_space (rev (dropWhile is_space s)))"

text \<open>\<open>d in s\<close> on strings is \<^const>\<open>sublist\<close>; \<open>s.count("/")\<close> counts one code point.\<close>

definition count_slash :: "pystr \<Rightarrow> nat" where
  "count_slash s = count_list s 47"

text \<open>\<open>sep.join(parts)\<close>.\<close>

fun join :: "pystr \<Rightarrow> pystr list \<Rightarrow> pystr" where
  "join sep [] = []"
| "join sep [p] = p"
| "join sep (p # q # ps) = p @ sep @ join sep (q # ps)"

text \<open>\<open>d.get(k, default)\<close> on a dict.\<close>

definition dict_get :: "('k \<rightharpoonup> 'v) \<Rightarrow> 'k \<Rightarrow> 'v \<Rightarrow> 'v" where
  "dict_get d k dflt = (case d k of None \<Rightarrow> dflt | Some v \<Rightarrow> v)"

subsection \<open>Floats\<close>

text \<open>
  A Python \<open>float\<close> is an IEEE 754 binary64 number. A finite one is modelled by the
  rational it denotes, and every arithmetic result is rounded to the nearest binary64
  value, ties to the even significand (\<open>fl\<close>): 53 significant bits, exponents down to the
  subnormal range. A float literal denotes the binary64 value nearest to its decimal
  text. Overflow to infinity is not modelled: a score is -999 or a sum of at most 27
  literals of magnitude at most 1.
\<close>

definition pow2 :: "int \<Rightarrow> rat" where
  "pow2 k = (if 0 \<le> k then 2 ^ nat k else 1 / 2 ^ nat (- k))"

definition round_even :: "rat \<Rightarrow> int" where
  "round_even x =
     (let f = \<lfloor>x\<rfloor>; r = x - of_int f
      in if r < 1 / 2 then f else if 1 / 2 < r then f + 1 else if even f then f else f + 1)"

definition ilog2 :: "rat \<Rightarrow> int" where
  "ilog2 x =
     (let (p, q) = quotient_of x; k = bitlen p - bitlen q
      in if pow2 k \<le> x then k else k - 1)"

definition fl :: "rat \<Rightarrow> rat" where
  "fl x =
     (if x = 0 then 0
      else let e = max (ilog2 \<bar>x\<bar> - 52) (- 1074)
           in of_int (round_even (x / pow2 e)) * pow2 e)"

definition fadd :: "rat \<Rightarrow> rat \<Rightarrow> rat" where
  "fadd x y = fl (x + y)"

definition fsub :: "rat \<Rightarrow> rat \<Rightarrow> rat" where
  "fsub x y = fl (x - y)"

text \<open>The float literals \<open>0.6\<close>, \<open>0.3\<close> and \<open>0.1\<close> of the program.\<close>

definition lit_0_6 :: rat where
  "lit_0_6 = fl (6 / 10)"

definition lit_0_3 :: rat where
  "lit_0_3 = fl (3 / 10)"

definition lit_0_1 :: rat where
  "lit_0_1 = fl (1 / 10)"

section \<open>Link scoring\<close>

definition WHITELIST_DOMAINS :: "pystr list" where
  "WHITELIST_DOMAINS =
     map ustr [''planhub.com'', ''buildingconnected.com'', ''constructconnect.com'',
               ''isqft.com'', ''procore.com'']"

definition INTENT_WORDS :: "pystr list" where
  "INTENT_WORDS =
     map ustr [''view project'', ''submit'', ''bid'', ''open invite'', ''project'', ''plans'',
               ''portal'', ''itb'']"

definition HREF_HINTS :: "pystr list" where
  "HREF_HINTS = map ustr [''project'', ''bid'', ''invite'', ''itb'', ''plan'', ''rfi'']"

definition NEGATIVE_HINTS :: "pystr list" where
  "NEGATIVE_HINTS =
     map ustr [''unsubscribe'', ''preferences'', ''kb.'', ''knowledge'', ''support'', ''terms'',
               ''privacy'']"

text \<open>
  The loop \<open>for d in pats: if d in s: score = step score\<close>, with the running score
  threaded through.
\<close>

fun for_each_match :: "(rat \<Rightarrow> rat) \<Rightarrow> pystr list \<Rightarrow> pystr \<Rightarrow> rat \<Rightarrow> rat" where
  "for_each_match step [] s score = score"
| "for_each_match step (d # ds) s score =
     for_each_match step ds s (if sublist d s then step score else score)"

text \<open>
  \<open>score_link\<close>. The arguments are strings, on which \<open>href or ""\<close> is \<open>href\<close>. The
  literals \<open>0.0\<close>, \<open>1.0\<close> and \<open>-999.0\<close> are exact.
\<close>

definition score_link :: "pystr \<Rightarrow> pystr \<Rightarrow> rat" where
  "score_link href text =
     (let href_l = lower href; text_l = lower text; score = 0
      in if href_l = [] then - 999
         else
           let score = for_each_match (\<lambda>s. fadd s lit_0_6) WHITELIST_DOMAINS href_l score;
               score = for_each_match (\<lambda>s. fadd s lit_0_3) INTENT_WORDS text_l score;
               score = (if 4 \<le> count_slash href_l then fadd score lit_0_1 else score);
               score = for_each_match (\<lambda>s. fadd s lit_0_1) HREF_HINTS href_l score;
               score = for_each_match (\<lambda>s. fsub s 1) NEGATIVE_HINTS href_l score
           in score)"

text \<open>
  The scorer as the specification words it: from a base of 0, one summand for each
  trusted domain found in the lower-cased target, one for each intent phrase found in the
  lower-cased text, one for at least four path separators, one for each structural hint and
  one negative summand for each negative hint, added in this order; the empty target gets
  the sentinel.
\<close>

definition spec_contributions :: "pystr \<Rightarrow> pystr \<Rightarrow> rat list" where
  "spec_contributions href text =
     map (\<lambda>d. lit_0_6) (filter (\<lambda>d. sublist d (lower href)) WHITELIST_DOMAINS)
     @ map (\<lambda>w. lit_0_3) (filter (\<lambda>w. sublist w (lower text)) INTENT_WORDS)
     @ (if 4 \<le> count_slash (lower href) then [lit_0_1] else [])
     @ map (\<lambda>q. lit_0_1) (filter (\<lambda>q. sublist q (lower href)) HREF_HINTS)
     @ map (\<lambda>b. - 1) (filter (\<lambda>b. sublist b (lower href)) NEGATIVE_HINTS)"

definition spec_score :: "pystr \<Rightarrow> pystr \<Rightarrow> rat" where
  "spec_score href text =
     (if href = [] then - 999 else foldl fadd 0 (spec_contributions href text))"

section \<open>Ranking\<close>

text \<open>A link of the DOM is a dict; its keys \<open>text\<close> and \<open>href\<close> hold strings.\<close>

type_synonym link = "pystr \<rightharpoonup> pystr"

record scored =
  r_text :: pystr
  r_href :: pystr
  r_score :: rat

text \<open>
  \<open>list.sort(key=..., reverse=True)\<close>: CPython reverses the list, sorts it with its stable
  ascending sort, and reverses the result. The stable ascending sort is \<^const>\<open>sort_key\<close>.
\<close>

definition sort_reverse :: "('a \<Rightarrow> rat) \<Rightarrow> 'a list \<Rightarrow> 'a list" where
  "sort_reverse key xs = rev (sort_key key (rev xs))"

definition score_entry :: "link \<Rightarrow> scored" where
  "score_entry l =
     (let href = dict_get l (ustr ''href'') [];
          text = dict_get l (ustr ''text'') []
      in \<lparr>r_text = text, r_href = href, r_score = score_link href text\<rparr>)"

definition rank_links :: "link list \<Rightarrow> scored list" where
  "rank_links links = sort_reverse r_score (map score_entry links)"

section \<open>The viewer\<close>

subsection \<open>Data\<close>

text \<open>
  The pointer dict built for the newest matching mail has the five keys \<open>account\<close>,
  \<open>mailbox\<close>, \<open>message_id\<close>, \<open>subject\<close> and \<open>from\<close>, in this order; \<open>message_id\<close>
  may be \<open>None\<close>.
\<close>

record pointer =
  account :: pystr
  mailbox :: pystr
  message_id :: "pystr option"
  subject :: pystr
  from_addr :: pystr

text \<open>The value the DOM script hands to \<open>_on_dom\<close>: \<open>{text, links}\<close>.\<close>

record dom_result =
  js_text :: pystr
  js_links :: "link list"

text \<open>
  \<open>self.email_data\<close>: \<open>email_ptr\<close>, \<open>dom.visible_text\<close>, \<open>dom.links\<close>,
  \<open>links.primary_portal\<close> and \<open>links.aux\<close>; an entry of \<open>aux\<close> is a pair (text, href).
\<close>

record email_data =
  email_ptr :: pointer
  dom_visible_text :: pystr
  dom_links :: "link list"
  links_primary_portal :: "pystr option"
  links_aux :: "(pystr \<times> pystr) list"

text \<open>
  An exception: the name of its class, \<open>str(e)\<close>, and the frame lines of its traceback.
\<close>

datatype py_exn = PyExn (exn_type: pystr) (exn_str: pystr) (exn_frames: pystr)

text \<open>
  The window: the pointer, the extraction record, the three views of the middle column
  (labels of the details box, body text, items of the links list with their tooltips), the
  three check boxes, the paragraphs of the chat display, the input line, and the message
  boxes shown so far (title, text).
\<close>

record viewer =
  ptr :: pointer
  email_data :: "email_data option"
  details :: "pystr list"
  body_browser :: pystr
  links_list :: "(pystr \<times> pystr) list"
  header_check :: bool
  body_check :: bool
  links_check :: bool
  chat_display :: "pystr list"
  chat_input :: pystr
  message_boxes :: "(pystr \<times> pystr) list"

text \<open>
  \<open>json.dumps(..., indent=2)\<close> belongs to the standard library; the two uses in the
  context composer are parameters.
\<close>

record json =
  dumps_ptr :: "pointer \<Rightarrow> pystr"
  dumps_links :: "link list \<Rightarrow> pystr"

subsection \<open>Display helpers\<close>

definition py_str :: "pystr option \<Rightarrow> pystr" where
  "py_str x = (case x of None \<Rightarrow> ustr ''None'' | Some s \<Rightarrow> s)"

definition ptr_items :: "pointer \<Rightarrow> (pystr \<times> pystr) list" where
  "ptr_items p =
     [(ustr ''account'', account p), (ustr ''mailbox'', mailbox p),
      (ustr ''message_id'', py_str (message_id p)), (ustr ''subject'', subject p),
      (ustr ''from'', from_addr p)]"

text \<open>\<open>k.replace('_', ' ')\<close> and \<open>str.title()\<close> on the 7-bit keys of the pointer.\<close>

definition replace_underscore :: "pystr \<Rightarrow> pystr" where
  "replace_underscore k = map (\<lambda>c. if c = 95 then 32 else c) k"

fun title_from :: "bool \<Rightarrow> pystr \<Rightarrow> pystr" where
  "title_from prev_cased [] = []"
| "title_from prev_cased (c # s) =
     (let up = (65 \<le> c \<and> c \<le> 90); lo = (97 \<le> c \<and> c \<le> 122);
          c' = (if prev_cased then (if up then c + 32 else c) else (if lo then c - 32 else c))
      in c' # title_from (up \<or> lo) s)"

definition title :: "pystr \<Rightarrow> pystr" where
  "title k = title_from False k"

definition display_details :: "pointer \<Rightarrow> pystr option \<Rightarrow> viewer \<Rightarrow> viewer" where
  "display_details p primary v =
     v\<lparr>details :=
         map (\<lambda>(k, x). title (replace_underscore k) @ ustr '': '' @ x) (ptr_items p)
         @ (case primary of
              None \<Rightarrow> []
            | Some h \<Rightarrow> if h = [] then [] else [ustr ''Primary Portal: '' @ h])\<rparr>"

definition display_body :: "pystr \<Rightarrow> viewer \<Rightarrow> viewer" where
  "display_body text v = v\<lparr>body_browser := text\<rparr>"

text \<open>The three code points of the literal that follows a shortened target.\<close>

definition ELLIPSIS :: pystr where
  "ELLIPSIS = [226, 8364, 166]"

definition display_links :: "link list \<Rightarrow> viewer \<Rightarrow> viewer" where
  "display_links links v =
     v\<lparr>links_list :=
         map (\<lambda>l. let text = dict_get l (ustr ''text'') [];
                     href = dict_get l (ustr ''href'') [];
                     ui_href = (if length href \<le> 100 then href else take 100 href @ ELLIPSIS)
                 in (text @ ustr '' -> '' @ ui_href, href)) links\<rparr>"

subsection \<open>DOM extraction\<close>

text \<open>\<open>traceback.format_exc()\<close> while the exception is handled.\<close>

definition format_exc :: "py_exn \<Rightarrow> pystr" where
  "format_exc e =
     ustr ''Traceback (most recent call last):'' @ NL @ exn_frames e @ exn_type e
     @ (if exn_str e = [] then [] else ustr '': '' @ exn_str e) @ NL"

text \<open>The threshold literal \<open>0.3\<close>.\<close>

definition THRESHOLD :: rat where
  "THRESHOLD = lit_0_3"

text \<open>
  \<open>ranked[0]["href"] if ranked and ranked[0]["score"] > 0.3 else None\<close>, and the slice
  \<open>ranked[1:6]\<close> without the scores.
\<close>

definition primary_of :: "scored list \<Rightarrow> pystr option" where
  "primary_of ranked =
     (case ranked of
        [] \<Rightarrow> None
      | r # _ \<Rightarrow> if THRESHOLD < r_score r then Some (r_href r) else None)"

definition aux_of :: "scored list \<Rightarrow> (pystr \<times> pystr) list" where
  "aux_of ranked = map (\<lambda>r. (r_text r, r_href r)) (take (6 - 1) (drop 1 ranked))"

text \<open>The record assigned to \<open>self.email_data\<close> in \<open>_on_dom\<close>.\<close>

definition assemble :: "pointer \<Rightarrow> dom_result option \<Rightarrow> email_data" where
  "assemble p dom_res =
     (let visible_text = (case dom_res of None \<Rightarrow> [] | Some d \<Rightarrow> js_text d);
          links = (case dom_res of None \<Rightarrow> [] | Some d \<Rightarrow> js_links d);
          ranked = rank_links links;
          primary = primary_of ranked
      in \<lparr>email_ptr = p, dom_visible_text = visible_text, dom_links = links,
          links_primary_portal = primary, links_aux = aux_of ranked\<rparr>)"

text \<open>
  \<open>_on_dom\<close>. The first argument is what writing \<open>email_output.json\<close> does: \<open>None\<close> when
  \<open>open\<close> and \<open>json.dump\<close> return, the exception when one of them raises. Everything
  sits in one \<open>try\<close>; its handler shows a message box.
\<close>

definition on_dom :: "py_exn option \<Rightarrow> dom_result option \<Rightarrow> viewer \<Rightarrow> viewer" where
  "on_dom wr dom_res v =
     (let data = assemble (ptr v) dom_res;
          v1 = v\<lparr>email_data := Some data\<rparr>
      in case wr of
           Some e \<Rightarrow>
             v1\<lparr>message_boxes := message_boxes v1
                   @ [(ustr ''DOM Error'', exn_str e @ NL @ NL @ format_exc e)]\<rparr>
         | None \<Rightarrow>
             display_links (dom_links data)
               (display_body (dom_visible_text data)
                 (display_details (ptr v1) (links_primary_portal data) v1)))"

subsection \<open>Chat\<close>

text \<open>
  \<open>_compose_context\<close>. With no extraction record, the first checked box reads
  \<open>None.get\<close> and raises AttributeError: the result is \<open>None\<close>.
\<close>

definition compose_context :: "json \<Rightarrow> viewer \<Rightarrow> pystr option" where
  "compose_context J v =
     (case email_data v of
        None \<Rightarrow>
          if header_check v \<or> body_check v \<or> links_check v then None
          else Some (join (NL @ NL) [])
      | Some d \<Rightarrow>
          let parts = [];
              parts = (if header_check v
                       then parts @ [ustr ''Header:'' @ NL @ dumps_ptr J (email_ptr d)]
                       else parts);
              parts = (if body_check v
                       then parts @ [ustr ''Body:'' @ NL @ dom_visible_text d]
                       else parts);
              parts = (if links_check v
                       then parts @ [ustr ''Links:'' @ NL @ dumps_links J (dom_links d)]
                       else parts)
          in Some (join (NL @ NL) parts))"

definition full_prompt :: "pystr \<Rightarrow> pystr \<Rightarrow> pystr" where
  "full_prompt context user_msg =
     context @ NL @ NL
     @ ustr ''You are a bid-invite extractor. Answer the user precisely.'' @ NL
     @ ustr ''If asked, extract fields as JSON using keys: project_name, address, zip, due_date, gc_name, contacts[], links.primary.'' @ NL
     @ NL @ ustr ''User: '' @ user_msg"

text \<open>
  The part of \<open>_send_to_llm\<close> that runs before the task is submitted: the new window and
  the prompt handed to the pool, if any. \<open>None\<close> is an exception leaving the method.
\<close>

definition send_to_llm :: "json \<Rightarrow> viewer \<Rightarrow> (viewer \<times> pystr option) option" where
  "send_to_llm J v =
     (case email_data v of
        None \<Rightarrow> Some (v\<lparr>chat_display := chat_display v @ [ustr ''No email data yet.'']\<rparr>, None)
      | Some d \<Rightarrow>
          let user_msg = strip (chat_input v)
          in if user_msg = [] then Some (v, None)
             else
               (case compose_context J v of
                  None \<Rightarrow> None
                | Some context \<Rightarrow>
                    Some (v\<lparr>chat_display := chat_display v
                               @ [ustr ''You: '' @ user_msg, ustr ''Model: '' @ ELLIPSIS],
                            chat_input := []\<rparr>,
                          Some (full_prompt context user_msg))))"

text \<open>
  \<open>call_ollama\<close>: the endpoint (import, client, chat call and the two subscripts) either
  raises or yields the content, which is stripped.
\<close>

definition call_ollama :: "(pystr \<Rightarrow> py_exn + pystr) \<Rightarrow> pystr \<Rightarrow> py_exn + pystr" where
  "call_ollama endpoint message =
     (case endpoint message of Inl e \<Rightarrow> Inl e | Inr content \<Rightarrow> Inr (strip content))"

definition task :: "(pystr \<Rightarrow> py_exn + pystr) \<Rightarrow> pystr \<Rightarrow> pystr" where
  "task endpoint prompt =
     (case call_ollama endpoint prompt of
        Inl e \<Rightarrow> ustr ''[ERROR] '' @ exn_str e
      | Inr s \<Rightarrow> s)"

text \<open>
  \<open>on_done\<close> once \<open>fut.result()\<close> has returned or raised: the paragraph it queues for the
  chat display.
\<close>

definition on_done :: "py_exn + pystr \<Rightarrow> pystr" where
  "on_done res =
     (let txt = (case res of Inr t \<Rightarrow> t | Inl e \<Rightarrow> ustr ''[ERROR] '' @ exn_str e)
      in ustr ''Model: '' @ txt)"

definition append_chat :: "pystr \<Rightarrow> viewer \<Rightarrow> viewer" where
  "append_chat line v = v\<lparr>chat_display := chat_display v @ [line]\<rparr>"

subsection \<open>The event loop\<close>

text \<open>
  The UI thread handles the events of its queue one at a time. A click on Send runs
  \<open>_send_to_llm\<close>, which submits the task to the pool and posts \<open>on_done\<close> with a
  zero timer (\<open>QTimer.singleShot(0, on_done)\<close>), so \<open>on_done\<close> runs on the UI thread as a
  later event. There it calls \<open>fut.result()\<close>, which returns at once when the future is
  finished and otherwise keeps the calling thread waiting until a worker finishes it.
  Afterwards the queued \<open>append\<close> is one more event. An exception leaving
  \<open>_send_to_llm\<close> would end the handling of the click; \<open>send_to_llm\<close> never
  raises one.
\<close>

datatype ui_event = SendClicked | TimerOnDone nat | QueuedAppend pystr

datatype future = Pending pystr | Finished pystr

record session =
  win :: viewer
  events :: "ui_event list"
  futs :: "future list"
  waiting :: "nat option"

text \<open>
  The future a callback holds, by its position in the list of submitted futures. A
  position is only ever made by the step that appends the future.
\<close>

definition fut_at :: "session \<Rightarrow> nat \<Rightarrow> future option" where
  "fut_at s i = (if i < length (futs s) then Some (futs s ! i) else None)"

definition ui_step :: "json \<Rightarrow> session \<Rightarrow> session" where
  "ui_step J s =
     (case waiting s of
        Some i \<Rightarrow>
          (case fut_at s i of
             Some (Finished txt) \<Rightarrow>
               s\<lparr>waiting := None, events := events s @ [QueuedAppend (on_done (Inr txt))]\<rparr>
           | _ \<Rightarrow> s)
      | None \<Rightarrow>
          (case events s of
             [] \<Rightarrow> s
           | SendClicked # es \<Rightarrow>
               (case send_to_llm J (win s) of
                  None \<Rightarrow> s\<lparr>events := es\<rparr>
                | Some (v, None) \<Rightarrow> s\<lparr>win := v, events := es\<rparr>
                | Some (v, Some p) \<Rightarrow>
                    s\<lparr>win := v, futs := futs s @ [Pending p],
                      events := es @ [TimerOnDone (length (futs s))]\<rparr>)
           | TimerOnDone i # es \<Rightarrow>
               (case fut_at s i of
                  Some (Finished txt) \<Rightarrow>
                    s\<lparr>events := es @ [QueuedAppend (on_done (Inr txt))]\<rparr>
                | Some (Pending p) \<Rightarrow> s\<lparr>events := es, waiting := Some i\<rparr>
                | None \<Rightarrow> s\<lparr>events := es\<rparr>)
           | QueuedAppend line # es \<Rightarrow> s\<lparr>win := append_chat line (win s), events := es\<rparr>))"

text \<open>A worker of the pool returns from the task of future \<open>i\<close>.\<close>

definition worker_finish :: "(pystr \<Rightarrow> py_exn + pystr) \<Rightarrow> nat \<Rightarrow> session \<Rightarrow> session" where
  "worker_finish endpoint i s =
     (if i < length (futs s)
      then (case futs s ! i of
              Pending p \<Rightarrow> s\<lparr>futs := (futs s)[i := Finished (task endpoint p)]\<rparr>
            | Finished txt \<Rightarrow> s)
      else s)"

text \<open>
  A schedule: the UI thread takes its next step, or a worker finishes a future. \<open>run\<close>
  carries a session through a schedule.
\<close>

datatype action = UI | Worker nat

fun run :: "json \<Rightarrow> (pystr \<Rightarrow> py_exn + pystr) \<Rightarrow> action list \<Rightarrow> session \<Rightarrow> session" where
  "run J endpoint [] s = s"
| "run J endpoint (UI # as) s = run J endpoint as (ui_step J s)"
| "run J endpoint (Worker i # as) s = run J endpoint as (worker_finish endpoint i s)"

section \<open>Example data\<close>

text \<open>The dict the DOM script builds for one anchor.\<close>

definition js_link :: "string \<Rightarrow> string \<Rightarrow> link" where
  "js_link text href = [ustr ''text'' \<mapsto> ustr text, ustr ''href'' \<mapsto> ustr href]"

definition ex_links :: "link list" where
  "ex_links =
     [js_link ''Bid'' ''http://a.b/x'', js_link ''Submit'' ''http://planhub.com'',
      js_link ''Submit'' ''http://c.d'']"

text \<open>A pointer, the window right after its construction, and a DOM result.\<close>

definition ex_ptr :: pointer where
  "ex_ptr =
     \<lparr>account = ustr ''Commercial Estimator'', mailbox = ustr ''Inbox'',
      message_id = Some (ustr ''00000000A1B2''), subject = ustr ''Invitation to bid'',
      from_addr = ustr ''noreply@planhub.com''\<rparr>"

definition ex_viewer :: viewer where
  "ex_viewer =
     \<lparr>ptr = ex_ptr, email_data = None, details = [], body_browser = [], links_list = [],
      header_check = True, body_check = False, links_check = True,
      chat_display = [], chat_input = ustr ''When is the bid due?'', message_boxes = []\<rparr>"

definition ex_dom :: dom_result where
  "ex_dom = \<lparr>js_text = ustr ''Please submit your bid'', js_links = ex_links\<rparr>"

text \<open>A stand-in for \<open>json.dumps\<close>: the subject of the pointer, the targets of the links.\<close>

definition ex_json :: json where
  "ex_json =
     \<lparr>dumps_ptr = subject,
      dumps_links = (\<lambda>ls. concat (map (\<lambda>l. dict_get l (ustr ''href'') []) ls))\<rparr>"

text \<open>
  The exception of \<open>open\<close> on a read-only directory, and an endpoint that is down.
\<close>

definition ex_oserror :: py_exn where
  "ex_oserror =
     PyExn (ustr ''PermissionError'')
       (ustr ''[Errno 13] Permission denied: '' @ [39] @ ustr ''email_output.json'' @ [39])
       (ustr ''  File '' @ [34] @ ustr ''combined_viewer.py'' @ [34]
        @ ustr '', line 296, in _on_dom'' @ NL)"

definition ex_endpoint_down :: "pystr \<Rightarrow> py_exn + pystr" where
  "ex_endpoint_down prompt =
     Inl (PyExn (ustr ''ConnectError'') (ustr ''[Errno 111] Connection refused'') [])"

text \<open>The session after a successful extraction, with a click on Send waiting.\<close>

definition ex_session :: session where
  "ex_session =
     \<lparr>win = on_dom None (Some ex_dom) ex_viewer, events = [SendClicked], futs = [],
      waiting = None\<rparr>"

section \<open>Properties of the scorer\<close>

lemma lower_cp_ne: "lower_cp c \<noteq> []"
  by (simp add: lower_cp_def)

lemma lower_eq_Nil: "lower s = [] \<longleftrightarrow> s = []"
  by (cases s) (simp_all add: lower_def lower_cp_ne)

lemma lower_cp_idem: "concat (map lower_cp (lower_cp c)) = lower_cp c"
  by (simp add: lower_cp_def)

lemma lower_idem: "lower (lower s) = lower s"
  by (induction s) (simp_all add: lower_def lower_cp_idem)

lemma fsub_one: "fsub s 1 = fadd s (- 1)"
  by (simp add: fsub_def fadd_def)

lemma for_each_match_foldl:
  "for_each_match (\<lambda>s. f s w) ds s acc
   = foldl f acc (map (\<lambda>d. w) (filter (\<lambda>d. sublist d s) ds))"
  by (induction ds arbitrary: acc) simp_all

text \<open>Evaluation of the string functions on literals.\<close>

lemmas str_eval = ustr_def lower_def lower_cp_def count_slash_def sublist_code prefix_code
  WHITELIST_DOMAINS_def INTENT_WORDS_def HREF_HINTS_def NEGATIVE_HINTS_def

text \<open>
  The literals as fractions, as \<open>float.as_integer_ratio\<close> gives them, and the float sums
  of the examples.
\<close>

lemma lit_0_1_value: "lit_0_1 = 3602879701896397 / 36028797018963968"
  by code_simp

lemma lit_0_3_value: "lit_0_3 = 5404319552844595 / 18014398509481984"
  by code_simp

lemma lit_0_6_value: "lit_0_6 = 5404319552844595 / 9007199254740992"
  by code_simp

lemma sum_0_3: "fadd 0 lit_0_3 = lit_0_3"
  by code_simp

lemma sum_planhub_submit:
  "fadd (fadd (fadd 0 lit_0_6) lit_0_3) lit_0_1 = 9007199254740991 / 9007199254740992"
  by code_simp

lemma sum_view_project:
  "fadd (fadd (fadd (fadd (fadd (fadd 0 lit_0_6) lit_0_3) lit_0_3) lit_0_1) lit_0_1) lit_0_1
   = 6755399441055745 / 4503599627370496"
  by code_simp

lemma fsub_0_1: "fsub 0 1 = - 1"
  by code_simp

text \<open>
  Binary64 addition is not exact: three structural hints sum to more than the literal
  \<open>0.3\<close>, as \<open>0.1 + 0.1 + 0.1 > 0.3\<close> does in Python.
\<close>

lemma three_hints_exceed_threshold:
  "fadd (fadd (fadd 0 lit_0_1) lit_0_1) lit_0_1 > lit_0_3"
  by code_simp

text \<open>
  C1. The score computed by \<open>score_link\<close> is the additive heuristic of the specification:
  the sentinel -999 for an empty target whatever the text, and otherwise the summands
  0.6 per trusted domain, 0.3 per intent phrase, 0.1 for four or more separators, 0.1 per
  structural hint and -1.0 per negative hint, added to 0 in this order in float
  arithmetic. The matching is case-insensitive: lower-casing the arguments beforehand
  does not change the score.
\<close>

theorem score_link_additive:
  "score_link href text = spec_score href text
   \<and> score_link [] text = - 999
   \<and> score_link (lower href) (lower text) = score_link href text"
proof -
  have "score_link href text = spec_score href text"
    by (simp add: score_link_def spec_score_def spec_contributions_def lower_eq_Nil
        for_each_match_foldl fsub_one [abs_def] Let_def)
  moreover have "score_link [] text = - 999"
    by (simp add: score_link_def lower_def)
  moreover have "score_link (lower href) (lower text) = score_link href text"
    by (simp add: score_link_def lower_idem)
  ultimately show ?thesis by simp
qed

theorem score_link_additive_witness:
  "score_link (ustr ''https://planhub.com/bid/1234/view'') (ustr ''View Project'')
     = spec_score (ustr ''https://planhub.com/bid/1234/view'') (ustr ''View Project'')
   \<and> spec_score (ustr ''https://planhub.com/bid/1234/view'') (ustr ''View Project'')
     = 6755399441055745 / 4503599627370496
   \<and> score_link (ustr ''https://mail.example.com/unsubscribe?x=1'') (ustr ''Unsubscribe'') = - 1"
proof -
  have "score_link (ustr ''https://planhub.com/bid/1234/view'') (ustr ''View Project'')
     = fadd (fadd (fadd (fadd (fadd (fadd 0 lit_0_6) lit_0_3) lit_0_3) lit_0_1) lit_0_1) lit_0_1"
    by (simp add: score_link_def str_eval)
  moreover have
    "score_link (ustr ''https://mail.example.com/unsubscribe?x=1'') (ustr ''Unsubscribe'')
     = fsub 0 1"
    by (simp add: score_link_def str_eval)
  ultimately show ?thesis
    using score_link_additive
      [of "ustr ''https://planhub.com/bid/1234/view''" "ustr ''View Project''"]
    by (simp add: sum_view_project fsub_0_1)
qed

section \<open>Properties of the ranking\<close>

lemma sort_reverse_sorted: "sorted_wrt (\<lambda>a b. key b \<le> key a) (sort_reverse key xs)"
proof -
  have "sorted (map key (sort_key key (rev xs)))" by simp
  then have "sorted_wrt (\<lambda>a b. key a \<le> key b) (sort_key key (rev xs))"
    by (simp add: sorted_map)
  then show ?thesis
    by (simp add: sort_reverse_def sorted_wrt_rev)
qed

lemma sort_reverse_stable:
  "filter (\<lambda>y. key y = k) (sort_reverse key xs) = filter (\<lambda>y. key y = k) xs"
proof -
  have "filter (\<lambda>y. key y = k) (sort_reverse key xs)
        = rev (filter (\<lambda>y. key y = k) (sort_key key (rev xs)))"
    by (simp add: sort_reverse_def rev_filter)
  also have "\<dots> = rev (filter (\<lambda>y. key y = k) (rev xs))"
    by (simp only: sort_key_stable)
  also have "\<dots> = filter (\<lambda>y. key y = k) xs"
    by (simp add: rev_filter)
  finally show ?thesis .
qed

lemma sort_reverse_mset: "mset (sort_reverse key xs) = mset xs"
  by (simp add: sort_reverse_def)

lemma sort_reverse_length: "length (sort_reverse key xs) = length xs"
  by (simp add: sort_reverse_def)

lemma sort_reverse_set: "set (sort_reverse key xs) = set xs"
  by (simp add: sort_reverse_def)

lemma pair_subseq_nth:
  assumes "i < j" "j < length xs"
  shows "subseq [xs ! i, xs ! j] xs"
proof -
  have 1: "xs = take i xs @ xs ! i # drop (Suc i) xs"
    using assms by (simp add: id_take_nth_drop)
  have "j - Suc i < length (drop (Suc i) xs)" using assms by simp
  then have "drop (Suc i) xs = take (j - Suc i) (drop (Suc i) xs)
      @ drop (Suc i) xs ! (j - Suc i) # drop (Suc (j - Suc i)) (drop (Suc i) xs)"
    by (rule id_take_nth_drop)
  moreover have "drop (Suc i) xs ! (j - Suc i) = xs ! j" using assms by simp
  ultimately have 2: "drop (Suc i) xs = take (j - Suc i) (drop (Suc i) xs)
      @ xs ! j # drop (Suc (j - Suc i)) (drop (Suc i) xs)" by simp
  have "subseq [xs ! j] (drop (Suc i) xs)"
    by (subst 2) (simp add: list_emb_append2)
  then have "subseq (xs ! i # [xs ! j]) (xs ! i # drop (Suc i) xs)"
    by (rule subseq_Cons2)
  then have "subseq [xs ! i, xs ! j] (take i xs @ xs ! i # drop (Suc i) xs)"
    by (rule list_emb_append2)
  then show ?thesis using 1 by simp
qed

lemma subseq_pair_nth:
  assumes "subseq [a, b] ys"
  shows "\<exists>i j. i < j \<and> j < length ys \<and> ys ! i = a \<and> ys ! j = b"
proof -
  from assms obtain us vs where ys: "ys = us @ a # vs" and "subseq [b] vs"
    by (auto dest!: list_emb_ConsD)
  then obtain ws zs where vs: "vs = ws @ b # zs"
    by (auto dest!: list_emb_ConsD)
  have "ys ! length us = a" by (simp add: ys)
  moreover have "ys ! (length us + Suc (length ws)) = b"
    by (simp add: ys vs nth_append)
  moreover have "length us + Suc (length ws) < length ys" by (simp add: ys vs)
  moreover have "length us < length us + Suc (length ws)" by simp
  ultimately show ?thesis by blast
qed

lemma stable_order:
  assumes "filter P ys = filter P xs" "i < j" "j < length xs" "P (xs ! i)" "P (xs ! j)"
  shows "\<exists>i' j'. i' < j' \<and> j' < length ys \<and> ys ! i' = xs ! i \<and> ys ! j' = xs ! j"
proof -
  have "subseq [xs ! i, xs ! j] xs" using assms by (simp add: pair_subseq_nth)
  then have "subseq (filter P [xs ! i, xs ! j]) (filter P xs)"
    by (rule subseq_filter)
  then have "subseq [xs ! i, xs ! j] (filter P ys)" using assms by simp
  moreover have "subseq (filter P ys) ys" by simp
  ultimately have "subseq [xs ! i, xs ! j] ys"
    by (rule subseq_order.order_trans)
  then show ?thesis by (rule subseq_pair_nth)
qed

lemma rank_links_sorted: "sorted_wrt (\<lambda>a b. r_score b \<le> r_score a) (rank_links links)"
  by (simp add: rank_links_def sort_reverse_sorted)

lemma rank_links_stable:
  "filter (\<lambda>r. r_score r = v) (rank_links links)
   = filter (\<lambda>r. r_score r = v) (map score_entry links)"
  by (simp only: rank_links_def sort_reverse_stable)

lemma rank_links_mset: "mset (rank_links links) = mset (map score_entry links)"
  by (simp add: rank_links_def sort_reverse_mset)

lemma rank_links_length: "length (rank_links links) = length links"
  by (simp add: rank_links_def sort_reverse_length)

lemma rank_links_set: "set (rank_links links) = score_entry ` set links"
  by (simp add: rank_links_def sort_reverse_set)

text \<open>
  C6. \<open>rank_links\<close> returns the scored candidates in descending order of score, and the
  sort is stable: the entries of any one score keep their input order, so of two candidates
  with the same score the one seen earlier comes first. The ranking is a function of the
  input list alone.
\<close>

theorem rank_links_stable_descending:
  "sorted_wrt (\<lambda>a b. r_score b \<le> r_score a) (rank_links links)
   \<and> mset (rank_links links) = mset (map score_entry links)
   \<and> (\<forall>v. filter (\<lambda>r. r_score r = v) (rank_links links)
          = filter (\<lambda>r. r_score r = v) (map score_entry links))
   \<and> (\<forall>i j. i < j \<and> j < length links
          \<and> r_score (score_entry (links ! i)) = r_score (score_entry (links ! j))
        \<longrightarrow> (\<exists>i' j'. i' < j' \<and> j' < length (rank_links links)
               \<and> rank_links links ! i' = score_entry (links ! i)
               \<and> rank_links links ! j' = score_entry (links ! j)))"
proof -
  have "\<exists>i' j'. i' < j' \<and> j' < length (rank_links links)
               \<and> rank_links links ! i' = score_entry (links ! i)
               \<and> rank_links links ! j' = score_entry (links ! j)"
    if h: "i < j" "j < length links"
      "r_score (score_entry (links ! i)) = r_score (score_entry (links ! j))" for i j
  proof -
    let ?P = "\<lambda>r. r_score r = r_score (score_entry (links ! j))"
    have "filter ?P (rank_links links) = filter ?P (map score_entry links)"
      by (rule rank_links_stable)
    moreover have "j < length (map score_entry links)" using h by simp
    moreover have "?P (map score_entry links ! i)" "?P (map score_entry links ! j)"
      using h by simp_all
    ultimately have "\<exists>i' j'. i' < j' \<and> j' < length (rank_links links)
        \<and> rank_links links ! i' = map score_entry links ! i
        \<and> rank_links links ! j' = map score_entry links ! j"
      using h(1) by (intro stable_order) assumption+
    then show ?thesis using h by simp
  qed
  then show ?thesis
    using rank_links_sorted rank_links_mset rank_links_stable by blast
qed

theorem rank_links_stable_descending_witness:
  "(0::nat) < 2 \<and> 2 < length ex_links
   \<and> r_score (score_entry (ex_links ! 0)) = r_score (score_entry (ex_links ! 2))
   \<and> (\<exists>i' j'. i' < j' \<and> j' < length (rank_links ex_links)
         \<and> rank_links ex_links ! i' = score_entry (ex_links ! 0)
         \<and> rank_links ex_links ! j' = score_entry (ex_links ! 2))"
proof -
  have a: "(0::nat) < 2" by simp
  have b: "2 < length ex_links" by (simp add: ex_links_def)
  have "score_link (ustr ''http://a.b/x'') (ustr ''Bid'') = fadd 0 lit_0_3"
    by (simp add: score_link_def str_eval)
  moreover have "score_link (ustr ''http://c.d'') (ustr ''Submit'') = fadd 0 lit_0_3"
    by (simp add: score_link_def str_eval)
  ultimately have c:
    "r_score (score_entry (ex_links ! 0)) = r_score (score_entry (ex_links ! 2))"
    by (simp add: ex_links_def js_link_def score_entry_def dict_get_def ustr_def)
  have "\<exists>i' j'. i' < j' \<and> j' < length (rank_links ex_links)
         \<and> rank_links ex_links ! i' = score_entry (ex_links ! 0)
         \<and> rank_links ex_links ! j' = score_entry (ex_links ! 2)"
    by (rule rank_links_stable_descending
          [of ex_links, THEN conjunct2, THEN conjunct2, THEN conjunct2, rule_format, of 0 2])
       (intro conjI a b c)
  then show ?thesis by (intro conjI a b c)
qed

text \<open>The ranking of the example: the trusted target first, the two ties in input order.\<close>

lemma score_bid: "score_link (ustr ''http://a.b/x'') (ustr ''Bid'') = lit_0_3"
  by (simp add: score_link_def str_eval sum_0_3)

lemma score_submit: "score_link (ustr ''http://c.d'') (ustr ''Submit'') = lit_0_3"
  by (simp add: score_link_def str_eval sum_0_3)

lemma score_planhub:
  "score_link (ustr ''http://planhub.com'') (ustr ''Submit'')
   = 9007199254740991 / 9007199254740992"
  by (simp add: score_link_def str_eval sum_planhub_submit)

lemma js_link_get:
  "dict_get (js_link t h) (ustr ''href'') [] = ustr h"
  "dict_get (js_link t h) (ustr ''text'') [] = ustr t"
  by (simp_all add: js_link_def dict_get_def ustr_def)

lemma rank_ex_links:
  "rank_links ex_links =
     [\<lparr>r_text = ustr ''Submit'', r_href = ustr ''http://planhub.com'',
        r_score = 9007199254740991 / 9007199254740992\<rparr>,
      \<lparr>r_text = ustr ''Bid'', r_href = ustr ''http://a.b/x'', r_score = lit_0_3\<rparr>,
      \<lparr>r_text = ustr ''Submit'', r_href = ustr ''http://c.d'', r_score = lit_0_3\<rparr>]"
proof -
  have "map score_entry ex_links =
     [\<lparr>r_text = ustr ''Bid'', r_href = ustr ''http://a.b/x'', r_score = lit_0_3\<rparr>,
      \<lparr>r_text = ustr ''Submit'', r_href = ustr ''http://planhub.com'',
        r_score = 9007199254740991 / 9007199254740992\<rparr>,
      \<lparr>r_text = ustr ''Submit'', r_href = ustr ''http://c.d'', r_score = lit_0_3\<rparr>]"
    by (simp add: ex_links_def score_entry_def js_link_get Let_def
        score_bid score_submit score_planhub)
  then show ?thesis
    by (simp add: rank_links_def sort_reverse_def lit_0_3_value)
qed

lemma rank_single_submit:
  "rank_links [js_link ''Submit'' ''http://c.d''] =
     [\<lparr>r_text = ustr ''Submit'', r_href = ustr ''http://c.d'', r_score = lit_0_3\<rparr>]"
  by (simp add: rank_links_def sort_reverse_def score_entry_def js_link_get Let_def score_submit)

section \<open>Primary link and auxiliary links\<close>

lemma rank_links_Nil: "rank_links [] = []"
  by (simp add: rank_links_def sort_reverse_def)

lemma rank_links_top_max:
  assumes "rank_links links = r # rs" "l \<in> set links"
  shows "r_score (score_entry l) \<le> r_score r"
proof -
  have "sorted_wrt (\<lambda>a b. r_score b \<le> r_score a) (r # rs)"
    using rank_links_sorted [of links] assms(1) by simp
  then have "\<forall>x \<in> set rs. r_score x \<le> r_score r" by simp
  moreover have "score_entry l \<in> set (r # rs)"
    using rank_links_set [of links] assms by auto
  ultimately show ?thesis by auto
qed

lemma primary_of_Some:
  "primary_of ranked = Some h
   \<longleftrightarrow> (\<exists>r rs. ranked = r # rs \<and> THRESHOLD < r_score r \<and> h = r_href r)"
  by (cases ranked) (auto simp: primary_of_def)

lemma primary_of_None:
  "primary_of (rank_links links) = None
   \<longleftrightarrow> (\<forall>l \<in> set links. r_score (score_entry l) \<le> THRESHOLD)"
proof (cases "rank_links links")
  case Nil
  then have "links = []" using rank_links_length [of links] by simp
  then show ?thesis by (simp add: rank_links_Nil primary_of_def)
next
  case (Cons r rs)
  have top: "\<forall>l \<in> set links. r_score (score_entry l) \<le> r_score r"
    using Cons rank_links_top_max by blast
  have "r \<in> set (rank_links links)" using Cons by simp
  then obtain l0 where l0: "l0 \<in> set links" "r = score_entry l0"
    using rank_links_set [of links] by auto
  show ?thesis
  proof
    assume "primary_of (rank_links links) = None"
    then have "r_score r \<le> THRESHOLD"
      using Cons by (simp add: primary_of_def split: if_splits)
    then show "\<forall>l \<in> set links. r_score (score_entry l) \<le> THRESHOLD"
      using top by fastforce
  next
    assume "\<forall>l \<in> set links. r_score (score_entry l) \<le> THRESHOLD"
    then have "r_score r \<le> THRESHOLD" using l0 by simp
    then show "primary_of (rank_links links) = None"
      using Cons by (simp add: primary_of_def)
  qed
qed

text \<open>
  C2. The primary link is set exactly when the ranked list is not empty and the score of
  its first entry is strictly greater than 0.3, and it is then the target of that entry;
  the first entry carries the greatest score of all candidates. When the first score is at
  most 0.3 (a score of exactly 0.3 included, and whatever else is in the list) there is no
  primary link; so there is none exactly when no candidate scores above 0.3. This is the
  value stored in the extraction record.
\<close>

theorem primary_iff_top_exceeds_threshold:
  "(primary_of (rank_links links) = Some h
      \<longleftrightarrow> (\<exists>r rs. rank_links links = r # rs \<and> THRESHOLD < r_score r \<and> h = r_href r))
   \<and> (\<forall>r rs. rank_links links = r # rs \<and> r_score r \<le> THRESHOLD
         \<longrightarrow> primary_of (rank_links links) = None)
   \<and> (\<forall>r rs. rank_links links = r # rs
         \<longrightarrow> (\<forall>l \<in> set links. r_score (score_entry l) \<le> r_score r))
   \<and> (primary_of (rank_links links) = None
        \<longleftrightarrow> (\<forall>l \<in> set links. r_score (score_entry l) \<le> THRESHOLD))
   \<and> links_primary_portal (assemble p dom_res)
       = primary_of (rank_links (case dom_res of None \<Rightarrow> [] | Some d \<Rightarrow> js_links d))
   \<and> email_data (on_dom wr dom_res v) = Some (assemble (ptr v) dom_res)"
proof -
  have "\<forall>r rs. rank_links links = r # rs \<and> r_score r \<le> THRESHOLD
         \<longrightarrow> primary_of (rank_links links) = None"
    by (simp add: primary_of_def)
  moreover have "\<forall>r rs. rank_links links = r # rs
         \<longrightarrow> (\<forall>l \<in> set links. r_score (score_entry l) \<le> r_score r)"
    using rank_links_top_max by blast
  moreover have "links_primary_portal (assemble p dom_res)
       = primary_of (rank_links (case dom_res of None \<Rightarrow> [] | Some d \<Rightarrow> js_links d))"
    by (simp add: assemble_def Let_def)
  moreover have "email_data (on_dom wr dom_res v) = Some (assemble (ptr v) dom_res)"
    by (cases wr)
       (simp_all add: on_dom_def Let_def display_links_def display_body_def display_details_def)
  ultimately show ?thesis
    using primary_of_Some [of "rank_links links" h] primary_of_None [of links] by blast
qed

theorem primary_iff_top_exceeds_threshold_witness:
  "rank_links [js_link ''Submit'' ''http://c.d'']
     = [\<lparr>r_text = ustr ''Submit'', r_href = ustr ''http://c.d'', r_score = lit_0_3\<rparr>]
   \<and> r_score \<lparr>r_text = ustr ''Submit'', r_href = ustr ''http://c.d'', r_score = lit_0_3\<rparr>
       \<le> THRESHOLD
   \<and> primary_of (rank_links [js_link ''Submit'' ''http://c.d'']) = None
   \<and> primary_of (rank_links ex_links) = Some (ustr ''http://planhub.com'')"
proof -
  let ?e = "\<lparr>r_text = ustr ''Submit'', r_href = ustr ''http://c.d'', r_score = lit_0_3\<rparr>"
  have a: "rank_links [js_link ''Submit'' ''http://c.d''] = [?e]"
    by (rule rank_single_submit)
  have b: "r_score ?e \<le> THRESHOLD"
    by (simp add: THRESHOLD_def)
  have c: "primary_of (rank_links [js_link ''Submit'' ''http://c.d'']) = None"
    by (rule primary_iff_top_exceeds_threshold
          [of "[js_link ''Submit'' ''http://c.d'']",
           THEN conjunct2, THEN conjunct1, rule_format, of ?e "[]"])
       (intro conjI a b)
  have "\<exists>r rs. rank_links ex_links = r # rs \<and> THRESHOLD < r_score r
          \<and> ustr ''http://planhub.com'' = r_href r"
    by (intro exI conjI, rule rank_ex_links) (simp_all add: THRESHOLD_def lit_0_3_value)
  then have d: "primary_of (rank_links ex_links) = Some (ustr ''http://planhub.com'')"
    by (rule primary_iff_top_exceeds_threshold
          [of ex_links "ustr ''http://planhub.com''", THEN conjunct1, THEN iffD2])
  show ?thesis by (intro conjI a b c d)
qed

lemma aux_of_nth:
  assumes "i < length (aux_of ranked)"
  shows "aux_of ranked ! i = (r_text (ranked ! Suc i), r_href (ranked ! Suc i))"
proof -
  have i: "i < 5" "Suc i < length ranked"
    using assms by (auto simp: aux_of_def)
  have "take 5 (drop 1 ranked) ! i = drop 1 ranked ! i"
    using i(1) by (rule nth_take)
  also have "\<dots> = ranked ! Suc i"
    using i(2) by simp
  finally show ?thesis
    using assms by (simp add: aux_of_def)
qed

lemma display_message_boxes:
  "message_boxes (display_links ls (display_body t (display_details q pr v))) = message_boxes v"
  by (simp add: display_links_def display_body_def display_details_def)

text \<open>
  C7. Every candidate gets a scored entry and all of them stay in the ranked list, those
  with a negative score too. The auxiliary links are the entries at positions 1 to 5 of the
  ranked list, without their scores: at most five, whatever their scores and whether or not
  a primary link was chosen. An empty list of candidates gives an empty ranking, no primary
  link and no auxiliary links, and no error is reported.
\<close>

theorem all_scored_and_auxiliary:
  "mset (rank_links links) = mset (map score_entry links)
   \<and> length (rank_links links) = length links
   \<and> (\<forall>l \<in> set links. score_entry l \<in> set (rank_links links))
   \<and> aux_of (rank_links links)
       = map (\<lambda>r. (r_text r, r_href r)) (take 5 (drop 1 (rank_links links)))
   \<and> length (aux_of (rank_links links)) = min 5 (length links - 1)
   \<and> (\<forall>i < length (aux_of (rank_links links)).
         aux_of (rank_links links) ! i
         = (r_text (rank_links links ! Suc i), r_href (rank_links links ! Suc i)))
   \<and> links_aux (assemble p dom_res)
       = aux_of (rank_links (case dom_res of None \<Rightarrow> [] | Some d \<Rightarrow> js_links d))
   \<and> rank_links [] = [] \<and> primary_of (rank_links []) = None \<and> aux_of (rank_links []) = []
   \<and> links_primary_portal (assemble p (Some \<lparr>js_text = t, js_links = []\<rparr>)) = None
   \<and> links_aux (assemble p (Some \<lparr>js_text = t, js_links = []\<rparr>)) = []
   \<and> message_boxes (on_dom None (Some \<lparr>js_text = t, js_links = []\<rparr>) v) = message_boxes v"
proof -
  have "\<forall>l \<in> set links. score_entry l \<in> set (rank_links links)"
    by (simp add: rank_links_set)
  moreover have "aux_of (rank_links links)
       = map (\<lambda>r. (r_text r, r_href r)) (take 5 (drop 1 (rank_links links)))"
    by (simp add: aux_of_def)
  moreover have "length (aux_of (rank_links links)) = min 5 (length links - 1)"
    by (simp add: aux_of_def rank_links_length)
  moreover have "\<forall>i < length (aux_of (rank_links links)).
         aux_of (rank_links links) ! i
         = (r_text (rank_links links ! Suc i), r_href (rank_links links ! Suc i))"
    using aux_of_nth by blast
  moreover have "links_aux (assemble p dom_res)
       = aux_of (rank_links (case dom_res of None \<Rightarrow> [] | Some d \<Rightarrow> js_links d))"
    by (simp add: assemble_def Let_def)
  moreover have "primary_of (rank_links []) = None" "aux_of (rank_links []) = []"
    by (simp_all add: rank_links_Nil primary_of_def aux_of_def)
  moreover have "links_primary_portal (assemble p (Some \<lparr>js_text = t, js_links = []\<rparr>)) = None"
    "links_aux (assemble p (Some \<lparr>js_text = t, js_links = []\<rparr>)) = []"
    by (simp_all add: assemble_def Let_def rank_links_Nil primary_of_def aux_of_def)
  moreover have
    "message_boxes (on_dom None (Some \<lparr>js_text = t, js_links = []\<rparr>) v) = message_boxes v"
    by (simp add: on_dom_def Let_def display_message_boxes)
  ultimately show ?thesis
    using rank_links_mset [of links] rank_links_length [of links] rank_links_Nil by blast
qed

theorem all_scored_and_auxiliary_witness:
  "js_link ''Bid'' ''http://a.b/x'' \<in> set ex_links
   \<and> score_entry (js_link ''Bid'' ''http://a.b/x'') \<in> set (rank_links ex_links)
   \<and> 0 < length (aux_of (rank_links ex_links))
   \<and> aux_of (rank_links ex_links) ! 0 = (ustr ''Bid'', ustr ''http://a.b/x'')"
proof -
  have a: "js_link ''Bid'' ''http://a.b/x'' \<in> set ex_links"
    by (simp add: ex_links_def)
  have b: "score_entry (js_link ''Bid'' ''http://a.b/x'') \<in> set (rank_links ex_links)"
    using a
    by (rule all_scored_and_auxiliary
          [of ex_links, THEN conjunct2, THEN conjunct2, THEN conjunct1, rule_format])
  have "length (aux_of (rank_links ex_links)) = min 5 (length ex_links - 1)"
    by (rule all_scored_and_auxiliary
          [of ex_links, THEN conjunct2, THEN conjunct2, THEN conjunct2, THEN conjunct2,
           THEN conjunct1])
  then have c: "0 < length (aux_of (rank_links ex_links))"
    by (simp add: ex_links_def)
  have "aux_of (rank_links ex_links) ! 0
        = (r_text (rank_links ex_links ! Suc 0), r_href (rank_links ex_links ! Suc 0))"
    using c
    by (rule all_scored_and_auxiliary
          [of ex_links, THEN conjunct2, THEN conjunct2, THEN conjunct2, THEN conjunct2,
           THEN conjunct2, THEN conjunct1, rule_format])
  then have d: "aux_of (rank_links ex_links) ! 0 = (ustr ''Bid'', ustr ''http://a.b/x'')"
    by (simp add: rank_ex_links)
  show ?thesis by (intro conjI a b c d)
qed

section \<open>Context composer\<close>

lemma on_dom_email_data: "email_data (on_dom wr dom_res v) = Some (assemble (ptr v) dom_res)"
  by (cases wr)
     (simp_all add: on_dom_def Let_def display_links_def display_body_def display_details_def)

lemma compose_context_Some:
  "email_data v = Some d \<Longrightarrow> \<exists>c. compose_context J v = Some c"
  by (simp add: compose_context_def Let_def)

text \<open>
  C8. With an extraction record present, the composed context is made of the blocks of the
  checked boxes only, \<open>Header:\<close>, \<open>Body:\<close> and \<open>Links:\<close> each followed by a
  newline and its content, in this order, with one blank line between two blocks; an
  unchecked box contributes nothing. With no box checked the context is the empty string,
  whatever the record holds.
\<close>

theorem compose_context_blocks:
  "(email_data v = Some d \<longrightarrow>
      compose_context J v
      = Some (join (NL @ NL)
               (map snd (filter fst
                  [(header_check v, ustr ''Header:'' @ NL @ dumps_ptr J (email_ptr d)),
                   (body_check v, ustr ''Body:'' @ NL @ dom_visible_text d),
                   (links_check v, ustr ''Links:'' @ NL @ dumps_links J (dom_links d))])))
      \<and> compose_context J v
      = Some (let H = ustr ''Header:'' @ NL @ dumps_ptr J (email_ptr d);
                  B = ustr ''Body:'' @ NL @ dom_visible_text d;
                  L = ustr ''Links:'' @ NL @ dumps_links J (dom_links d)
              in if header_check v
                 then (if body_check v
                       then (if links_check v then H @ NL @ NL @ B @ NL @ NL @ L
                             else H @ NL @ NL @ B)
                       else (if links_check v then H @ NL @ NL @ L else H))
                 else (if body_check v
                       then (if links_check v then B @ NL @ NL @ L else B)
                       else (if links_check v then L else []))))
   \<and> (\<not> header_check v \<and> \<not> body_check v \<and> \<not> links_check v
        \<longrightarrow> compose_context J v = Some [])"
proof -
  have "compose_context J v = Some []"
    if "\<not> header_check v" "\<not> body_check v" "\<not> links_check v"
    using that by (cases "email_data v") (simp_all add: compose_context_def)
  moreover have "compose_context J v
      = Some (join (NL @ NL)
               (map snd (filter fst
                  [(header_check v, ustr ''Header:'' @ NL @ dumps_ptr J (email_ptr d)),
                   (body_check v, ustr ''Body:'' @ NL @ dom_visible_text d),
                   (links_check v, ustr ''Links:'' @ NL @ dumps_links J (dom_links d))])))"
    if "email_data v = Some d"
    using that by (simp add: compose_context_def Let_def)
  moreover have "compose_context J v
      = Some (let H = ustr ''Header:'' @ NL @ dumps_ptr J (email_ptr d);
                  B = ustr ''Body:'' @ NL @ dom_visible_text d;
                  L = ustr ''Links:'' @ NL @ dumps_links J (dom_links d)
              in if header_check v
                 then (if body_check v
                       then (if links_check v then H @ NL @ NL @ B @ NL @ NL @ L
                             else H @ NL @ NL @ B)
                       else (if links_check v then H @ NL @ NL @ L else H))
                 else (if body_check v
                       then (if links_check v then B @ NL @ NL @ L else B)
                       else (if links_check v then L else [])))"
    if "email_data v = Some d"
    using that by (simp add: compose_context_def Let_def)
  ultimately show ?thesis by blast
qed

theorem compose_context_blocks_witness:
  "email_data (win ex_session) = Some (assemble ex_ptr (Some ex_dom))
   \<and> compose_context ex_json (win ex_session)
     = Some (ustr ''Header:'' @ NL @ ustr ''Invitation to bid'' @ NL @ NL
             @ ustr ''Links:'' @ NL
             @ ustr ''http://a.b/xhttp://planhub.comhttp://c.d'')
   \<and> \<not> header_check (ex_viewer\<lparr>header_check := False, links_check := False\<rparr>)
   \<and> \<not> body_check (ex_viewer\<lparr>header_check := False, links_check := False\<rparr>)
   \<and> \<not> links_check (ex_viewer\<lparr>header_check := False, links_check := False\<rparr>)
   \<and> compose_context ex_json (ex_viewer\<lparr>header_check := False, links_check := False\<rparr>)
     = Some []"
proof -
  have a: "email_data (win ex_session) = Some (assemble ex_ptr (Some ex_dom))"
    by (simp add: ex_session_def on_dom_email_data ex_viewer_def)
  have flags: "header_check (win ex_session)" "\<not> body_check (win ex_session)"
    "links_check (win ex_session)"
    by (simp_all add: ex_session_def on_dom_def Let_def ex_viewer_def display_links_def
        display_body_def display_details_def)
  have "compose_context ex_json (win ex_session)
      = Some (join (NL @ NL)
               (map snd (filter fst
                  [(header_check (win ex_session),
                    ustr ''Header:'' @ NL
                    @ dumps_ptr ex_json (email_ptr (assemble ex_ptr (Some ex_dom)))),
                   (body_check (win ex_session),
                    ustr ''Body:'' @ NL @ dom_visible_text (assemble ex_ptr (Some ex_dom))),
                   (links_check (win ex_session),
                    ustr ''Links:'' @ NL
                    @ dumps_links ex_json (dom_links (assemble ex_ptr (Some ex_dom))))])))"
    using a
    by (rule compose_context_blocks
          [of "win ex_session" "assemble ex_ptr (Some ex_dom)" ex_json,
           THEN conjunct1, rule_format, THEN conjunct1])
  then have b: "compose_context ex_json (win ex_session)
     = Some (ustr ''Header:'' @ NL @ ustr ''Invitation to bid'' @ NL @ NL
             @ ustr ''Links:'' @ NL
             @ ustr ''http://a.b/xhttp://planhub.comhttp://c.d'')"
    by (simp add: flags assemble_def Let_def ex_json_def ex_ptr_def ex_dom_def ex_links_def
        js_link_def dict_get_def ustr_def)
  have c: "\<not> header_check (ex_viewer\<lparr>header_check := False, links_check := False\<rparr>)"
    "\<not> body_check (ex_viewer\<lparr>header_check := False, links_check := False\<rparr>)"
    "\<not> links_check (ex_viewer\<lparr>header_check := False, links_check := False\<rparr>)"
    by (simp_all add: ex_viewer_def)
  have d: "compose_context ex_json (ex_viewer\<lparr>header_check := False, links_check := False\<rparr>)
     = Some []"
    by (rule compose_context_blocks
          [of "ex_viewer\<lparr>header_check := False, links_check := False\<rparr>" _ ex_json,
           THEN conjunct2, rule_format])
       (intro conjI c)
  show ?thesis by (intro conjI a b c d)
qed

section \<open>Sending a query\<close>

lemma dropWhile_all_iff: "(\<forall>x \<in> set (dropWhile P xs). P x) \<longleftrightarrow> (\<forall>x \<in> set xs. P x)"
proof
  assume h: "\<forall>x \<in> set (dropWhile P xs). P x"
  have "dropWhile P xs = []"
  proof (rule ccontr)
    assume ne: "dropWhile P xs \<noteq> []"
    then have "\<not> P (hd (dropWhile P xs))" by (rule hd_dropWhile)
    moreover have "hd (dropWhile P xs) \<in> set (dropWhile P xs)" using ne by simp
    ultimately show False using h by blast
  qed
  then show "\<forall>x \<in> set xs. P x" by (simp add: dropWhile_eq_Nil_conv)
next
  assume "\<forall>x \<in> set xs. P x"
  then show "\<forall>x \<in> set (dropWhile P xs). P x" by (meson set_dropWhileD)
qed

lemma strip_eq_Nil: "strip s = [] \<longleftrightarrow> (\<forall>c \<in> set s. is_space c)"
  by (simp add: strip_def dropWhile_eq_Nil_conv dropWhile_all_iff)

text \<open>
  C10. A click on Send while there is no extraction record appends the paragraph
  \<open>No email data yet.\<close> to the chat display and submits nothing. With a record present,
  an input that is empty or holds white space only changes nothing in the window, the
  input line included, and submits nothing either.
\<close>

theorem send_without_data_or_message:
  "(email_data v = None \<longrightarrow>
      send_to_llm J v
      = Some (v\<lparr>chat_display := chat_display v @ [ustr ''No email data yet.'']\<rparr>, None))
   \<and> (email_data v \<noteq> None \<and> (\<forall>c \<in> set (chat_input v). is_space c) \<longrightarrow>
        send_to_llm J v = Some (v, None))
   \<and> (waiting s = None \<and> events s = SendClicked # es
        \<and> (email_data (win s) = None \<or> (\<forall>c \<in> set (chat_input (win s)). is_space c)) \<longrightarrow>
        futs (ui_step J s) = futs s \<and> events (ui_step J s) = es
        \<and> waiting (ui_step J s) = None)"
proof -
  have a: "send_to_llm J v
      = Some (v\<lparr>chat_display := chat_display v @ [ustr ''No email data yet.'']\<rparr>, None)"
    if "email_data v = None" for v
    using that by (simp add: send_to_llm_def)
  have b: "send_to_llm J v = Some (v, None)"
    if "email_data v \<noteq> None" "\<forall>c \<in> set (chat_input v). is_space c" for v
    using that by (auto simp: send_to_llm_def strip_eq_Nil)
  have "futs (ui_step J s) = futs s \<and> events (ui_step J s) = es \<and> waiting (ui_step J s) = None"
    if h: "waiting s = None" "events s = SendClicked # es"
      "email_data (win s) = None \<or> (\<forall>c \<in> set (chat_input (win s)). is_space c)"
  proof (cases "email_data (win s) = None")
    case True
    then show ?thesis using h a [of "win s"] by (simp add: ui_step_def)
  next
    case False
    with h(3) have "\<forall>c \<in> set (chat_input (win s)). is_space c" by simp
    with False have "send_to_llm J (win s) = Some (win s, None)" by (rule b)
    then show ?thesis using h(1,2) by (simp add: ui_step_def)
  qed
  then show ?thesis using a b by blast
qed

theorem send_without_data_or_message_witness:
  "email_data ex_viewer = None
   \<and> send_to_llm ex_json ex_viewer
     = Some (ex_viewer\<lparr>chat_display := [ustr ''No email data yet.'']\<rparr>, None)
   \<and> email_data ((win ex_session)\<lparr>chat_input := ustr ''   ''\<rparr>) \<noteq> None
   \<and> list_all is_space (chat_input ((win ex_session)\<lparr>chat_input := ustr ''   ''\<rparr>))
   \<and> send_to_llm ex_json ((win ex_session)\<lparr>chat_input := ustr ''   ''\<rparr>)
     = Some ((win ex_session)\<lparr>chat_input := ustr ''   ''\<rparr>, None)"
proof -
  have a: "email_data ex_viewer = None"
    by (simp add: ex_viewer_def)
  have "send_to_llm ex_json ex_viewer
     = Some (ex_viewer\<lparr>chat_display := chat_display ex_viewer @ [ustr ''No email data yet.'']\<rparr>,
             None)"
    using a
    by (rule send_without_data_or_message
          [of ex_viewer ex_json, THEN conjunct1, rule_format])
  then have b: "send_to_llm ex_json ex_viewer
     = Some (ex_viewer\<lparr>chat_display := [ustr ''No email data yet.'']\<rparr>, None)"
    by (simp add: ex_viewer_def)
  have c: "email_data ((win ex_session)\<lparr>chat_input := ustr ''   ''\<rparr>) \<noteq> None"
    by (simp add: ex_session_def on_dom_email_data)
  have d: "\<forall>c \<in> set (chat_input ((win ex_session)\<lparr>chat_input := ustr ''   ''\<rparr>)). is_space c"
    by (simp add: ustr_def is_space_def)
  have e: "send_to_llm ex_json ((win ex_session)\<lparr>chat_input := ustr ''   ''\<rparr>)
     = Some ((win ex_session)\<lparr>chat_input := ustr ''   ''\<rparr>, None)"
    by (rule send_without_data_or_message
          [of "(win ex_session)\<lparr>chat_input := ustr ''   ''\<rparr>" ex_json,
           THEN conjunct2, THEN conjunct1, rule_format])
       (intro conjI c d)
  have d': "list_all is_space (chat_input ((win ex_session)\<lparr>chat_input := ustr ''   ''\<rparr>))"
    using d by (simp only: list_all_iff)
  show ?thesis by (intro conjI a b c d' e)
qed

section \<open>Completion of a query\<close>

lemma task_failed: "endpoint p = Inl e \<Longrightarrow> task endpoint p = ustr ''[ERROR] '' @ exn_str e"
  by (simp add: task_def call_ollama_def)

lemma send_to_llm_total: "send_to_llm J v \<noteq> None"
proof (cases "email_data v")
  case None
  then show ?thesis by (simp add: send_to_llm_def)
next
  case (Some d)
  then obtain c where "compose_context J v = Some c"
    using compose_context_Some by blast
  then show ?thesis using Some by (simp add: send_to_llm_def Let_def)
qed

lemma send_to_llm_dispatch:
  assumes "email_data v = Some d" "strip (chat_input v) \<noteq> []"
  shows "\<exists>c. compose_context J v = Some c
     \<and> send_to_llm J v
       = Some (v\<lparr>chat_display := chat_display v
                   @ [ustr ''You: '' @ strip (chat_input v), ustr ''Model: '' @ ELLIPSIS],
                chat_input := []\<rparr>,
               Some (full_prompt c (strip (chat_input v))))"
proof -
  obtain c where c: "compose_context J v = Some c"
    using compose_context_Some [OF assms(1)] by blast
  then show ?thesis
    using assms by (simp add: send_to_llm_def Let_def)
qed

lemma run_failed_query:
  assumes down: "\<And>p. endpoint p = Inl e"
    and idle: "waiting s = None" "events s = [SendClicked]"
    and data: "email_data (win s) = Some d"
    and msg: "strip (chat_input (win s)) \<noteq> []"
    and sched: "sched = [UI, UI, Worker (length (futs s)), UI, UI]
                \<or> sched = [UI, Worker (length (futs s)), UI, UI]"
  shows "run J endpoint sched s
     = s\<lparr>win := (win s)\<lparr>chat_display := chat_display (win s)
                       @ [ustr ''You: '' @ strip (chat_input (win s)),
                          ustr ''Model: '' @ ELLIPSIS,
                          ustr ''Model: [ERROR] '' @ exn_str e],
                     chat_input := []\<rparr>,
          events := [], futs := futs s @ [Finished (ustr ''[ERROR] '' @ exn_str e)],
          waiting := None\<rparr>"
proof -
  obtain c where send: "send_to_llm J (win s)
       = Some ((win s)\<lparr>chat_display := chat_display (win s)
                   @ [ustr ''You: '' @ strip (chat_input (win s)), ustr ''Model: '' @ ELLIPSIS],
                chat_input := []\<rparr>,
               Some (full_prompt c (strip (chat_input (win s)))))"
    using send_to_llm_dispatch [OF data msg] by blast
  have t: "task endpoint p = ustr ''[ERROR] '' @ exn_str e" for p
    using down by (rule task_failed)
  from sched show ?thesis
  proof
    assume "sched = [UI, UI, Worker (length (futs s)), UI, UI]"
    then show ?thesis
      using idle
      by (simp add: ui_step_def fut_at_def worker_finish_def send t on_done_def
          append_chat_def ustr_def)
  next
    assume "sched = [UI, Worker (length (futs s)), UI, UI]"
    then show ?thesis
      using idle
      by (simp add: ui_step_def fut_at_def worker_finish_def send t on_done_def
          append_chat_def ustr_def)
  qed
qed

text \<open>
  C9. When the call to the inference endpoint fails, the text handed back is
  \<open>[ERROR] \<close> followed by the text of the failure, and the chat display gets the paragraph
  \<open>Model: [ERROR] \<close> with that text, after the two paragraphs of the submission. Nothing
  else changes: the extraction record is kept, no event is left over, the UI thread waits
  for nothing, and a further click on Send with a non-blank input submits a new prompt.
  This holds whether the worker fails before or after the UI thread has started \<open>on_done\<close>.
\<close>

theorem inference_failure_reported_inline:
  assumes "\<And>p. endpoint p = Inl e"
    and "waiting s = None" "events s = [SendClicked]"
    and "email_data (win s) = Some d"
    and "strip (chat_input (win s)) \<noteq> []"
    and "sched = [UI, UI, Worker (length (futs s)), UI, UI]
         \<or> sched = [UI, Worker (length (futs s)), UI, UI]"
  shows "task endpoint p = ustr ''[ERROR] '' @ exn_str e
     \<and> prefix (ustr ''[ERROR] '') (task endpoint p)
     \<and> chat_display (win (run J endpoint sched s))
       = chat_display (win s)
         @ [ustr ''You: '' @ strip (chat_input (win s)), ustr ''Model: '' @ ELLIPSIS,
            ustr ''Model: [ERROR] '' @ exn_str e]
     \<and> email_data (win (run J endpoint sched s)) = Some d
     \<and> waiting (run J endpoint sched s) = None
     \<and> events (run J endpoint sched s) = []
     \<and> (strip m \<noteq> [] \<longrightarrow>
          (\<exists>v q. send_to_llm J ((win (run J endpoint sched s))\<lparr>chat_input := m\<rparr>)
                 = Some (v, Some q)))"
proof -
  have t: "task endpoint p = ustr ''[ERROR] '' @ exn_str e"
    using assms(1) by (rule task_failed)
  have r: "run J endpoint sched s
     = s\<lparr>win := (win s)\<lparr>chat_display := chat_display (win s)
                       @ [ustr ''You: '' @ strip (chat_input (win s)),
                          ustr ''Model: '' @ ELLIPSIS,
                          ustr ''Model: [ERROR] '' @ exn_str e],
                     chat_input := []\<rparr>,
          events := [], futs := futs s @ [Finished (ustr ''[ERROR] '' @ exn_str e)],
          waiting := None\<rparr>"
    using assms by (rule run_failed_query)
  have "\<exists>v q. send_to_llm J ((win (run J endpoint sched s))\<lparr>chat_input := m\<rparr>)
                 = Some (v, Some q)"
    if m: "strip m \<noteq> []"
  proof -
    let ?w = "(win (run J endpoint sched s))\<lparr>chat_input := m\<rparr>"
    have "email_data ?w = Some d" using assms(4) by (simp add: r)
    moreover have "strip (chat_input ?w) \<noteq> []" using m by simp
    ultimately show ?thesis
      using send_to_llm_dispatch [of ?w d J] by blast
  qed
  moreover have "prefix (ustr ''[ERROR] '') (task endpoint p)"
    by (simp add: t)
  moreover have "chat_display (win (run J endpoint sched s))
       = chat_display (win s)
         @ [ustr ''You: '' @ strip (chat_input (win s)), ustr ''Model: '' @ ELLIPSIS,
            ustr ''Model: [ERROR] '' @ exn_str e]"
    by (simp add: r)
  moreover have "email_data (win (run J endpoint sched s)) = Some d"
    using assms(4) by (simp add: r)
  moreover have "waiting (run J endpoint sched s) = None" "events (run J endpoint sched s) = []"
    by (simp_all add: r)
  ultimately show ?thesis
    using t by blast
qed

theorem inference_failure_reported_inline_witness:
  "chat_display (win (run ex_json ex_endpoint_down [UI, UI, Worker 0, UI, UI] ex_session))
     = [ustr ''You: When is the bid due?'', ustr ''Model: '' @ ELLIPSIS,
        ustr ''Model: [ERROR] [Errno 111] Connection refused'']
   \<and> waiting (run ex_json ex_endpoint_down [UI, UI, Worker 0, UI, UI] ex_session) = None
   \<and> (\<exists>v q. send_to_llm ex_json
         ((win (run ex_json ex_endpoint_down [UI, UI, Worker 0, UI, UI] ex_session))
            \<lparr>chat_input := ustr ''And the address?''\<rparr>)
       = Some (v, Some q))"
proof -
  let ?e = "PyExn (ustr ''ConnectError'') (ustr ''[Errno 111] Connection refused'') []"
  have down: "\<And>p. ex_endpoint_down p = Inl ?e"
    by (simp add: ex_endpoint_down_def)
  have idle: "waiting ex_session = None" "events ex_session = [SendClicked]"
    by (simp_all add: ex_session_def)
  have data: "email_data (win ex_session) = Some (assemble ex_ptr (Some ex_dom))"
    by (simp add: ex_session_def on_dom_email_data ex_viewer_def)
  have input: "chat_input (win ex_session) = ustr ''When is the bid due?''"
    by (simp add: ex_session_def on_dom_def Let_def ex_viewer_def display_links_def
        display_body_def display_details_def)
  have stripped: "strip (ustr ''When is the bid due?'') = ustr ''When is the bid due?''"
    by (simp add: strip_def ustr_def is_space_def)
  have msg: "strip (chat_input (win ex_session)) \<noteq> []"
    by (simp add: input stripped) (simp add: ustr_def)
  have log: "chat_display (win ex_session) = []"
    by (simp add: ex_session_def on_dom_def Let_def ex_viewer_def display_links_def
        display_body_def display_details_def)
  have m: "strip (ustr ''And the address?'') \<noteq> []"
    by (simp add: strip_def ustr_def is_space_def)
  have sched: "[UI, UI, Worker 0, UI, UI] = [UI, UI, Worker (length (futs ex_session)), UI, UI]
      \<or> [UI, UI, Worker 0, UI, UI] = [UI, Worker (length (futs ex_session)), UI, UI]"
    by (simp add: ex_session_def)
  note T = inference_failure_reported_inline
    [of ex_endpoint_down ?e ex_session "assemble ex_ptr (Some ex_dom)"
        "[UI, UI, Worker 0, UI, UI]" "[]" ex_json "ustr ''And the address?''",
     OF down idle data msg sched]
  have T': "chat_display (win (run ex_json ex_endpoint_down [UI, UI, Worker 0, UI, UI] ex_session))
       = chat_display (win ex_session)
         @ [ustr ''You: '' @ strip (chat_input (win ex_session)), ustr ''Model: '' @ ELLIPSIS,
            ustr ''Model: [ERROR] '' @ exn_str ?e]"
    "waiting (run ex_json ex_endpoint_down [UI, UI, Worker 0, UI, UI] ex_session) = None"
    "\<exists>v q. send_to_llm ex_json
         ((win (run ex_json ex_endpoint_down [UI, UI, Worker 0, UI, UI] ex_session))
            \<lparr>chat_input := ustr ''And the address?''\<rparr>)
       = Some (v, Some q)"
    using T m by blast+
  have "chat_display (win (run ex_json ex_endpoint_down [UI, UI, Worker 0, UI, UI] ex_session))
     = [ustr ''You: When is the bid due?'', ustr ''Model: '' @ ELLIPSIS,
        ustr ''Model: [ERROR] [Errno 111] Connection refused'']"
    by (simp only: T'(1) log input stripped) (simp add: ustr_def)
  then show ?thesis using T'(2,3) by (intro conjI)
qed

section \<open>Failures while handling the DOM\<close>

lemma sublist_mid: "sublist xs (ps @ xs @ ss)"
  by (auto simp: sublist_def)

lemma on_dom_failed:
  "on_dom (Some e) dom_res v
   = v\<lparr>email_data := Some (assemble (ptr v) dom_res),
       message_boxes := message_boxes v
         @ [(ustr ''DOM Error'', exn_str e @ NL @ NL @ format_exc e)]\<rparr>"
  by (simp add: on_dom_def Let_def)

lemma on_dom_written:
  "on_dom None dom_res v
   = v\<lparr>email_data := Some (assemble (ptr v) dom_res),
       details := details (display_details (ptr v)
                    (links_primary_portal (assemble (ptr v) dom_res)) v),
       body_browser := dom_visible_text (assemble (ptr v) dom_res),
       links_list := links_list (display_links (dom_links (assemble (ptr v) dom_res)) v)\<rparr>"
  by (simp add: on_dom_def Let_def display_links_def display_body_def display_details_def)

lemma primary_ex_links: "primary_of (rank_links ex_links) = Some (ustr ''http://planhub.com'')"
  by (simp add: rank_ex_links primary_of_def THRESHOLD_def lit_0_3_value)

text \<open>
  C3, as stated, fails: when writing \<open>email_output.json\<close> raises, the three views stay
  as they were (here empty), while a successful write fills them.
\<close>

theorem persistence_failure_leaves_views_example:
  "body_browser (on_dom (Some ex_oserror) (Some ex_dom) ex_viewer) = []
   \<and> details (on_dom (Some ex_oserror) (Some ex_dom) ex_viewer) = []
   \<and> links_list (on_dom (Some ex_oserror) (Some ex_dom) ex_viewer) = []
   \<and> body_browser (on_dom None (Some ex_dom) ex_viewer) = ustr ''Please submit your bid''
   \<and> details (on_dom None (Some ex_dom) ex_viewer)
     = [ustr ''Account: Commercial Estimator'', ustr ''Mailbox: Inbox'',
        ustr ''Message Id: 00000000A1B2'', ustr ''Subject: Invitation to bid'',
        ustr ''From: noreply@planhub.com'', ustr ''Primary Portal: http://planhub.com'']
   \<and> links_list (on_dom None (Some ex_dom) ex_viewer)
     = [(ustr ''Bid -> http://a.b/x'', ustr ''http://a.b/x''),
        (ustr ''Submit -> http://planhub.com'', ustr ''http://planhub.com''),
        (ustr ''Submit -> http://c.d'', ustr ''http://c.d'')]"
proof -
  have "body_browser (on_dom (Some ex_oserror) (Some ex_dom) ex_viewer) = []"
    "details (on_dom (Some ex_oserror) (Some ex_dom) ex_viewer) = []"
    "links_list (on_dom (Some ex_oserror) (Some ex_dom) ex_viewer) = []"
    by (simp_all add: on_dom_failed ex_viewer_def)
  moreover have
    "body_browser (on_dom None (Some ex_dom) ex_viewer) = ustr ''Please submit your bid''"
    by (simp add: on_dom_written assemble_def Let_def ex_dom_def)
  moreover have "links_primary_portal (assemble (ptr ex_viewer) (Some ex_dom))
      = Some (ustr ''http://planhub.com'')"
    by (simp add: assemble_def Let_def ex_dom_def primary_ex_links)
  then have "details (on_dom None (Some ex_dom) ex_viewer)
     = [ustr ''Account: Commercial Estimator'', ustr ''Mailbox: Inbox'',
        ustr ''Message Id: 00000000A1B2'', ustr ''Subject: Invitation to bid'',
        ustr ''From: noreply@planhub.com'', ustr ''Primary Portal: http://planhub.com'']"
    by (simp add: on_dom_written display_details_def ptr_items_def py_str_def title_def
        replace_underscore_def ex_viewer_def ex_ptr_def ustr_def Let_def)
  moreover have "links_list (on_dom None (Some ex_dom) ex_viewer)
     = [(ustr ''Bid -> http://a.b/x'', ustr ''http://a.b/x''),
        (ustr ''Submit -> http://planhub.com'', ustr ''http://planhub.com''),
        (ustr ''Submit -> http://c.d'', ustr ''http://c.d'')]"
    by (simp add: on_dom_written display_links_def assemble_def Let_def ex_dom_def ex_links_def
        js_link_def dict_get_def ustr_def)
  ultimately show ?thesis by (intro conjI)
qed

text \<open>
  C3, amended. A failure to write \<open>email_output.json\<close> is reported in a message box
  titled \<open>DOM Error\<close> and does not undo the assembly: the extraction record is stored
  as after a successful write. The details, body and links views are updated after a
  successful write only; after a failed one they are as before.
\<close>

theorem persistence_failure_reported_record_kept:
  "email_data (on_dom (Some e) dom_res v) = email_data (on_dom None dom_res v)
   \<and> email_data (on_dom (Some e) dom_res v) = Some (assemble (ptr v) dom_res)
   \<and> message_boxes (on_dom (Some e) dom_res v)
     = message_boxes v @ [(ustr ''DOM Error'', exn_str e @ NL @ NL @ format_exc e)]
   \<and> details (on_dom (Some e) dom_res v) = details v
   \<and> body_browser (on_dom (Some e) dom_res v) = body_browser v
   \<and> links_list (on_dom (Some e) dom_res v) = links_list v
   \<and> message_boxes (on_dom None dom_res v) = message_boxes v
   \<and> details (on_dom None dom_res v)
     = details (display_details (ptr v) (links_primary_portal (assemble (ptr v) dom_res)) v)
   \<and> body_browser (on_dom None dom_res v) = dom_visible_text (assemble (ptr v) dom_res)
   \<and> links_list (on_dom None dom_res v)
     = links_list (display_links (dom_links (assemble (ptr v) dom_res)) v)"
  by (simp add: on_dom_failed on_dom_written)

theorem persistence_failure_reported_record_kept_witness:
  "email_data (on_dom (Some ex_oserror) (Some ex_dom) ex_viewer)
     = Some (assemble ex_ptr (Some ex_dom))
   \<and> length (message_boxes (on_dom (Some ex_oserror) (Some ex_dom) ex_viewer)) = 1
   \<and> body_browser (on_dom (Some ex_oserror) (Some ex_dom) ex_viewer) = []"
proof -
  note T = persistence_failure_reported_record_kept [of ex_oserror "Some ex_dom" ex_viewer]
  have "email_data (on_dom (Some ex_oserror) (Some ex_dom) ex_viewer)
     = Some (assemble (ptr ex_viewer) (Some ex_dom))"
    by (rule T [THEN conjunct2, THEN conjunct1])
  moreover have "message_boxes (on_dom (Some ex_oserror) (Some ex_dom) ex_viewer)
     = message_boxes ex_viewer
       @ [(ustr ''DOM Error'', exn_str ex_oserror @ NL @ NL @ format_exc ex_oserror)]"
    by (rule T [THEN conjunct2, THEN conjunct2, THEN conjunct1])
  moreover have "body_browser (on_dom (Some ex_oserror) (Some ex_dom) ex_viewer)
     = body_browser ex_viewer"
    by (rule T [THEN conjunct2, THEN conjunct2, THEN conjunct2, THEN conjunct2,
          THEN conjunct1])
  ultimately show ?thesis
    by (simp add: ex_viewer_def)
qed

text \<open>
  C4, as stated, fails: the message box shown after a failed write holds the formatted
  traceback, frame lines included.
\<close>

theorem dom_error_shows_traceback_example:
  "message_boxes (on_dom (Some ex_oserror) (Some ex_dom) ex_viewer)
     = [(ustr ''DOM Error'',
         ustr ''[Errno 13] Permission denied: '' @ [39] @ ustr ''email_output.json'' @ [39]
         @ NL @ NL
         @ ustr ''Traceback (most recent call last):'' @ NL
         @ ustr ''  File '' @ [34] @ ustr ''combined_viewer.py'' @ [34]
         @ ustr '', line 296, in _on_dom'' @ NL
         @ ustr ''PermissionError: [Errno 13] Permission denied: '' @ [39]
         @ ustr ''email_output.json'' @ [39] @ NL)]
   \<and> sublist (ustr ''Traceback (most recent call last):'')
        (snd (last (message_boxes (on_dom (Some ex_oserror) (Some ex_dom) ex_viewer))))
   \<and> sublist (ustr '', line 296, in _on_dom'')
        (snd (last (message_boxes (on_dom (Some ex_oserror) (Some ex_dom) ex_viewer))))"
proof -
  have box: "message_boxes (on_dom (Some ex_oserror) (Some ex_dom) ex_viewer)
     = [(ustr ''DOM Error'',
         ustr ''[Errno 13] Permission denied: '' @ [39] @ ustr ''email_output.json'' @ [39]
         @ NL @ NL
         @ ustr ''Traceback (most recent call last):'' @ NL
         @ ustr ''  File '' @ [34] @ ustr ''combined_viewer.py'' @ [34]
         @ ustr '', line 296, in _on_dom'' @ NL
         @ ustr ''PermissionError: [Errno 13] Permission denied: '' @ [39]
         @ ustr ''email_output.json'' @ [39] @ NL)]"
    by (simp add: on_dom_failed ex_viewer_def ex_oserror_def format_exc_def ustr_def)
  have "sublist (ustr ''Traceback (most recent call last):'')
        ((ustr ''[Errno 13] Permission denied: '' @ [39] @ ustr ''email_output.json'' @ [39]
          @ NL @ NL)
         @ ustr ''Traceback (most recent call last):''
         @ (NL @ ustr ''  File '' @ [34] @ ustr ''combined_viewer.py'' @ [34]
            @ ustr '', line 296, in _on_dom'' @ NL
            @ ustr ''PermissionError: [Errno 13] Permission denied: '' @ [39]
            @ ustr ''email_output.json'' @ [39] @ NL))"
    by (rule sublist_mid)
  moreover have "sublist (ustr '', line 296, in _on_dom'')
        ((ustr ''[Errno 13] Permission denied: '' @ [39] @ ustr ''email_output.json'' @ [39]
          @ NL @ NL
          @ ustr ''Traceback (most recent call last):'' @ NL
          @ ustr ''  File '' @ [34] @ ustr ''combined_viewer.py'' @ [34])
         @ ustr '', line 296, in _on_dom''
         @ (NL @ ustr ''PermissionError: [Errno 13] Permission denied: '' @ [39]
            @ ustr ''email_output.json'' @ [39] @ NL))"
    by (rule sublist_mid)
  ultimately show ?thesis
    by (simp add: box)
qed

text \<open>
  C4, amended. A failed inference call is shown as one paragraph, \<open>Model: [ERROR] \<close>
  followed by the text of the exception and nothing else. A failure while handling the DOM
  is shown in a message box titled \<open>DOM Error\<close> whose text is the text of the exception,
  a blank line, and the formatted traceback: the header line, the frame lines, and the
  line naming the exception.
\<close>

theorem failures_as_shown:
  "on_done (Inl e) = ustr ''Model: [ERROR] '' @ exn_str e
   \<and> on_done (Inr (task (\<lambda>p. Inl e) q)) = ustr ''Model: [ERROR] '' @ exn_str e
   \<and> last (message_boxes (on_dom (Some e) dom_res v))
     = (ustr ''DOM Error'', exn_str e @ NL @ NL @ format_exc e)
   \<and> sublist (format_exc e) (snd (last (message_boxes (on_dom (Some e) dom_res v))))
   \<and> prefix (ustr ''Traceback (most recent call last):'' @ NL @ exn_frames e) (format_exc e)"
proof -
  have "on_done (Inl e) = ustr ''Model: [ERROR] '' @ exn_str e"
    "on_done (Inr (task (\<lambda>p. Inl e) q)) = ustr ''Model: [ERROR] '' @ exn_str e"
    by (simp_all add: on_done_def task_def call_ollama_def ustr_def)
  moreover have box: "last (message_boxes (on_dom (Some e) dom_res v))
     = (ustr ''DOM Error'', exn_str e @ NL @ NL @ format_exc e)"
    by (simp add: on_dom_failed)
  moreover have "sublist (format_exc e) ((exn_str e @ NL @ NL) @ format_exc e @ [])"
    by (rule sublist_mid)
  then have "sublist (format_exc e) (snd (last (message_boxes (on_dom (Some e) dom_res v))))"
    by (simp add: box)
  moreover have
    "prefix (ustr ''Traceback (most recent call last):'' @ NL @ exn_frames e) (format_exc e)"
    by (simp add: format_exc_def)
  ultimately show ?thesis by (intro conjI)
qed

theorem failures_as_shown_witness:
  "on_done (Inl ex_oserror)
     = ustr ''Model: [ERROR] [Errno 13] Permission denied: '' @ [39]
       @ ustr ''email_output.json'' @ [39]
   \<and> fst (last (message_boxes (on_dom (Some ex_oserror) (Some ex_dom) ex_viewer)))
     = ustr ''DOM Error''"
proof -
  note T = failures_as_shown [of ex_oserror _ "Some ex_dom" ex_viewer]
  have "on_done (Inl ex_oserror) = ustr ''Model: [ERROR] '' @ exn_str ex_oserror"
    by (rule T [THEN conjunct1])
  moreover have "last (message_boxes (on_dom (Some ex_oserror) (Some ex_dom) ex_viewer))
     = (ustr ''DOM Error'', exn_str ex_oserror @ NL @ NL @ format_exc ex_oserror)"
    by (rule T [THEN conjunct2, THEN conjunct2, THEN conjunct1])
  ultimately show ?thesis
    by (simp add: ex_oserror_def ustr_def)
qed

section \<open>The UI thread during a query\<close>

lemma ui_step_waiting:
  "waiting s = Some i \<Longrightarrow> fut_at s i = Some (Pending p) \<Longrightarrow> ui_step J s = s"
  by (simp add: ui_step_def)

lemma run_send_then_timer:
  assumes "waiting s = None" "events s = [SendClicked]"
    and "email_data (win s) = Some d" "strip (chat_input (win s)) \<noteq> []"
  shows "\<exists>c. compose_context J (win s) = Some c
    \<and> run J endpoint [UI, UI] s
      = s\<lparr>win := (win s)\<lparr>chat_display := chat_display (win s)
                       @ [ustr ''You: '' @ strip (chat_input (win s)),
                          ustr ''Model: '' @ ELLIPSIS],
                     chat_input := []\<rparr>,
           events := [],
           futs := futs s @ [Pending (full_prompt c (strip (chat_input (win s))))],
           waiting := Some (length (futs s))\<rparr>"
proof -
  obtain c where c: "compose_context J (win s) = Some c"
    and send: "send_to_llm J (win s)
       = Some ((win s)\<lparr>chat_display := chat_display (win s)
                   @ [ustr ''You: '' @ strip (chat_input (win s)), ustr ''Model: '' @ ELLIPSIS],
                chat_input := []\<rparr>,
               Some (full_prompt c (strip (chat_input (win s)))))"
    using send_to_llm_dispatch [OF assms(3,4)] by blast
  have "run J endpoint [UI, UI] s
      = s\<lparr>win := (win s)\<lparr>chat_display := chat_display (win s)
                       @ [ustr ''You: '' @ strip (chat_input (win s)),
                          ustr ''Model: '' @ ELLIPSIS],
                     chat_input := []\<rparr>,
           events := [],
           futs := futs s @ [Pending (full_prompt c (strip (chat_input (win s))))],
           waiting := Some (length (futs s))\<rparr>"
    using assms(1,2) by (simp add: ui_step_def fut_at_def send)
  with c show ?thesis by blast
qed

text \<open>
  C5 at a concrete submission. After the click on Send has been handled and the zero timer
  has fired, the UI thread is inside \<open>fut.result()\<close> while the future is still pending:
  it waits for the network call, and a further click stays unhandled in the queue however
  often the UI thread is scheduled. Only the worker's return lets it go on.
\<close>

theorem ui_thread_waits_for_network_call_example:
  "waiting (run ex_json ex_endpoint_down [UI, UI] ex_session) = Some 0
   \<and> (\<exists>p. futs (run ex_json ex_endpoint_down [UI, UI] ex_session) = [Pending p])
   \<and> events (run ex_json ex_endpoint_down [UI, UI] ex_session) = []
   \<and> run ex_json ex_endpoint_down [UI, UI, UI]
        ((run ex_json ex_endpoint_down [UI, UI] ex_session)\<lparr>events := [SendClicked]\<rparr>)
     = (run ex_json ex_endpoint_down [UI, UI] ex_session)\<lparr>events := [SendClicked]\<rparr>
   \<and> waiting (run ex_json ex_endpoint_down [Worker 0, UI]
        ((run ex_json ex_endpoint_down [UI, UI] ex_session)\<lparr>events := [SendClicked]\<rparr>))
     = None"
proof -
  have idle: "waiting ex_session = None" "events ex_session = [SendClicked]"
    by (simp_all add: ex_session_def)
  have none: "futs ex_session = []"
    by (simp add: ex_session_def)
  have data: "email_data (win ex_session) = Some (assemble ex_ptr (Some ex_dom))"
    by (simp add: ex_session_def on_dom_email_data ex_viewer_def)
  have "chat_input (win ex_session) = ustr ''When is the bid due?''"
    by (simp add: ex_session_def on_dom_written ex_viewer_def)
  then have msg: "strip (chat_input (win ex_session)) \<noteq> []"
    by (simp add: strip_def ustr_def is_space_def)
  obtain p where r: "run ex_json ex_endpoint_down [UI, UI] ex_session
      = ex_session\<lparr>win := (win ex_session)\<lparr>chat_display := chat_display (win ex_session)
                       @ [ustr ''You: '' @ strip (chat_input (win ex_session)),
                          ustr ''Model: '' @ ELLIPSIS],
                     chat_input := []\<rparr>,
           events := [], futs := [Pending p], waiting := Some 0\<rparr>"
    using run_send_then_timer [OF idle data msg, of ex_json ex_endpoint_down]
    by (auto simp: none)
  define s2 where
    "s2 = (run ex_json ex_endpoint_down [UI, UI] ex_session)\<lparr>events := [SendClicked]\<rparr>"
  have w: "waiting s2 = Some 0" "fut_at s2 0 = Some (Pending p)"
    unfolding s2_def r by (simp_all add: fut_at_def)
  have stay: "ui_step ex_json s2 = s2"
    using w by (rule ui_step_waiting)
  have a: "run ex_json ex_endpoint_down [UI, UI, UI] s2 = s2"
    by (simp add: stay)
  have b: "waiting (run ex_json ex_endpoint_down [Worker 0, UI] s2) = None"
    unfolding s2_def r by (simp add: worker_finish_def ui_step_def fut_at_def)
  have c: "\<exists>p. futs (run ex_json ex_endpoint_down [UI, UI] ex_session) = [Pending p]"
    unfolding r by simp
  have d: "waiting (run ex_json ex_endpoint_down [UI, UI] ex_session) = Some 0"
    "events (run ex_json ex_endpoint_down [UI, UI] ex_session) = []"
    unfolding r by simp_all
  show ?thesis
    by (intro conjI a [unfolded s2_def] b [unfolded s2_def] c d)
qed

end
